theory Spec2Isabelle
  imports Main "HOL-Library.Sublist"
begin

section \<open>Strings\<close>

text \<open>
  A Python \<open>str\<close> is a \<^typ>\<open>string\<close>; every \<^typ>\<open>char\<close> stands for one code point
  below 256. \<open>str.lower\<close> maps \<open>A..Z\<close> and the Latin-1 capitals (192..222 except the
  multiplication sign 215) 32 code points up and leaves every other code point below 256
  alone.
\<close>

definition lower_char :: "char \<Rightarrow> char" where
  "lower_char c =
     (let n = (of_char c :: nat)
      in if (65 \<le> n \<and> n \<le> 90) \<or> (192 \<le> n \<and> n \<le> 222 \<and> n \<noteq> 215)
         then char_of (n + 32) else c)"

definition lower :: "string \<Rightarrow> string" where
  "lower s = map lower_char s"

text \<open>\<open>s.endswith(t)\<close>.\<close>

definition endswith :: "string \<Rightarrow> string \<Rightarrow> bool" where
  "endswith s t = (length t \<le> length s \<and> drop (length s - length t) s = t)"

text \<open>\<open>re.sub(r'[^A-Za-z0-9]', '_', s)\<close>: every code point outside the three ASCII ranges
  becomes an underscore.\<close>

definition is_alnum :: "char \<Rightarrow> bool" where
  "is_alnum c =
     (let n = (of_char c :: nat)
      in (65 \<le> n \<and> n \<le> 90) \<or> (97 \<le> n \<and> n \<le> 122) \<or> (48 \<le> n \<and> n \<le> 57))"

definition re_sub_non_alnum :: "string \<Rightarrow> string" where
  "re_sub_non_alnum s = map (\<lambda>c. if is_alnum c then c else CHR ''_'') s"

section \<open>Python values and exceptions\<close>

datatype pyexn =
    ValueError string
  | ReferenceError
  | AttributeError
  | OtherError string

text \<open>
  The values a loader can return. \<open>PSub name v\<close> is an instance of a user-defined
  subclass \<open>name\<close> of the type of \<open>v\<close> (a namedtuple, an OrderedDict, a subclass of
  LoaderResponse): \<open>type(x)\<close> is then the subclass, not the base. A dict that reaches
  \<open>**kwargs\<close> has string keys; it is an association list.
\<close>

datatype pyval =
    PNone
  | PInt int
  | PStr string
  | PTuple (items: "pyval list")
  | PList "pyval list"
  | PDict (entries: "(string \<times> pyval) list")
  | PLoaderResponse (lr_body: pyval) (lr_code: pyval)
  | PSub string pyval

datatype pytype = TNone | TInt | TStr | TTuple | TList | TDict | TLoaderResponse | TUser string

fun type_of :: "pyval \<Rightarrow> pytype" where
  "type_of PNone = TNone"
| "type_of (PInt _) = TInt"
| "type_of (PStr _) = TStr"
| "type_of (PTuple _) = TTuple"
| "type_of (PList _) = TList"
| "type_of (PDict _) = TDict"
| "type_of (PLoaderResponse _ _) = TLoaderResponse"
| "type_of (PSub name _) = TUser name"

text \<open>Ordered sequences: tuples, lists, strings and instances of their subclasses.\<close>

fun is_sequence :: "pyval \<Rightarrow> bool" where
  "is_sequence (PTuple _) = True"
| "is_sequence (PList _) = True"
| "is_sequence (PStr _) = True"
| "is_sequence (PSub _ v) = is_sequence v"
| "is_sequence _ = False"

text \<open>\<open>LoaderResponse(body, code=200)\<close>.\<close>

definition LoaderResponse_init :: "pyval \<Rightarrow> pyval option \<Rightarrow> pyval" where
  "LoaderResponse_init body code =
     PLoaderResponse body (case code of None \<Rightarrow> PInt 200 | Some c \<Rightarrow> c)"

type_synonym kwargs = "(string \<times> pyval) list"

type_synonym loader = "pyval list \<Rightarrow> kwargs \<Rightarrow> pyexn + pyval"

section \<open>Resource classes and wrapped classes\<close>

text \<open>
  A resource class (a \<open>flask_restful.Resource\<close> subclass of the application) is known by
  its name and by its \<open>restful_loader\<close> attribute: \<open>None\<close> when
  \<open>hasattr(cls, 'restful_loader')\<close> is false.
\<close>

datatype 'l resource = Resource (cls_name: string) (restful_loader: "'l option")

text \<open>
  The class that \<open>wrapped_cls(cls, loader)\<close> builds. Every call builds a new class
  object, and Python compares class objects by identity: two classes built for the same
  base and loader are different objects. The identity of a built class is the number of
  classes built before it, which the heap counts; beside it the class holds its base, the
  loader it closes over, and its \<open>__name__\<close>.
\<close>

record 'l wrapped =
  wrapped_id :: nat
  wrapped_base :: "'l resource"
  wrapped_loader :: 'l
  wrapped_name :: string

definition wrapped_cls :: "'l resource \<Rightarrow> 'l \<Rightarrow> nat \<Rightarrow> 'l wrapped \<times> nat" where
  "wrapped_cls cls loader k =
     (\<lparr>wrapped_id = k, wrapped_base = cls, wrapped_loader = loader, wrapped_name = ''Wrapped''\<rparr>,
      Suc k)"

datatype 'l handler = Plain "'l resource" | WrappedCls "'l wrapped"

text \<open>
  \<open>Wrapped.dispatch_request(self, *args, **kwargs)\<close>. \<open>super_dispatch\<close> is the base
  class's \<open>dispatch_request\<close> (the framework's); the trace records each call of it, so
  that a dispatch that never reaches the base class leaves the trace as it was. A loader
  that raises ends the dispatch with its exception. \<open>Wrapped.__init__\<close> only calls the
  initialiser above the base class and is left out.
\<close>

datatype event = SuperDispatch "pyval list" kwargs

definition dispatch_request ::
  "(loader resource \<Rightarrow> pyval list \<Rightarrow> kwargs \<Rightarrow> pyexn + pyval) \<Rightarrow> loader wrapped \<Rightarrow>
   pyval list \<Rightarrow> kwargs \<Rightarrow> event list \<Rightarrow> (pyexn + pyval) \<times> event list" where
  "dispatch_request super_dispatch w args kwargs tr =
     (case wrapped_loader w args kwargs of
        Inl e \<Rightarrow> (Inl e, tr)
      | Inr loader_resp \<Rightarrow>
          if type_of loader_resp = TLoaderResponse
          then (Inr (PTuple [lr_body loader_resp, lr_code loader_resp]), tr)
          else
            let (args', kwargs') =
                  (if type_of loader_resp = TTuple then (items loader_resp, [])
                   else if type_of loader_resp = TDict then (args, entries loader_resp)
                   else ([loader_resp], []))
            in (super_dispatch (wrapped_base w) args' kwargs',
                tr @ [SuperDispatch args' kwargs']))"

section \<open>Route objects in a store\<close>

text \<open>
  \<open>Route\<close> objects are mutable and refer to each other (\<open>_children\<close>, \<open>_parent\<close>), so
  they live in a store: a list of cells, an object's address being its index. A cell is
  \<open>None\<close> once its object is gone: \<open>_parent\<close> is a \<open>weakref.proxy\<close>, which does not keep
  the parent alive, and reading through a dead proxy raises \<open>ReferenceError\<close>.
  The fields keep the source's names behind the prefix \<open>route\<close>.
\<close>

type_synonym addr = nat

record 'l route =
  route_children :: "addr list"
  route_endpoint :: string
  route_route :: string
  route_single :: "'l resource option"
  route_plural :: "'l resource option"
  route_single_type :: string
  route_safe_endpoint :: string
  route_parent :: "addr option"
  route_loader :: "'l option"

type_synonym 'l store = "'l route option list"

definition lookup :: "'l store \<Rightarrow> addr \<Rightarrow> 'l route option" where
  "lookup s a = (if a < length s then s ! a else None)"

definition update_obj :: "addr \<Rightarrow> ('l route \<Rightarrow> 'l route) \<Rightarrow> 'l store \<Rightarrow> 'l store" where
  "update_obj a f s = s[a := map_option f (lookup s a)]"

text \<open>
  \<open>child._parent = weakref.proxy(self)\<close>. An entry of \<open>children\<close> that is not a live
  \<open>Route\<close> (\<open>None\<close>, a number) has no attribute to set: \<open>AttributeError\<close>.
\<close>

definition set_parent :: "addr \<Rightarrow> addr \<Rightarrow> 'l store \<Rightarrow> (pyexn + unit) \<times> 'l store" where
  "set_parent child self s =
     (case lookup s child of
        None \<Rightarrow> (Inl AttributeError, s)
      | Some _ \<Rightarrow> (Inr (), update_obj child (\<lambda>obj. obj\<lparr>route_parent := Some self\<rparr>) s))"

text \<open>\<open>for child in self._children: child._parent = weakref.proxy(self)\<close>.\<close>

fun set_parents :: "addr list \<Rightarrow> addr \<Rightarrow> 'l store \<Rightarrow> (pyexn + unit) \<times> 'l store" where
  "set_parents [] self s = (Inr (), s)"
| "set_parents (child # rest) self s =
     (case set_parent child self s of
        (Inl e, s') \<Rightarrow> (Inl e, s')
      | (Inr _, s') \<Rightarrow> set_parents rest self s')"

definition default_single_type :: string where
  "default_single_type = ''int''"

text \<open>
  \<open>Route.__init__\<close>, with the allocation of the object. The optional arguments are
  options (\<open>None\<close> is Python's \<open>None\<close>, the default); \<open>single_type\<close> defaults to
  \<^const>\<open>default_single_type\<close> at the call. The result is the new object's address or the
  exception raised, and the store as the call leaves it: a call that raises after the loop
  over the children has already set their \<open>_parent\<close>, and the object it was building is
  gone. The \<open>print\<close> before the first \<open>raise\<close> writes to standard output only.
\<close>

definition Route_init ::
  "string \<Rightarrow> string \<Rightarrow> 'l resource option \<Rightarrow> 'l resource option \<Rightarrow> addr list option \<Rightarrow>
   string \<Rightarrow> 'l option \<Rightarrow> 'l store \<Rightarrow> (pyexn + addr) \<times> 'l store" where
  "Route_init endpoint route plural single children single_type loader s =
     (let children = (case children of None \<Rightarrow> [] | Some cs \<Rightarrow> cs)
      in if endswith (lower endpoint) ''s''
         then (Inl (ValueError (''Endpoints must be singular. Passed endpoint '' @ endpoint @
                                '' with route '' @ route)), s)
         else
           let self = length s;
               s1 = s @ [Some \<lparr>route_children = children,
                               route_endpoint = endpoint,
                               route_route = route,
                               route_single = single,
                               route_plural = plural,
                               route_single_type = single_type,
                               route_safe_endpoint = re_sub_non_alnum endpoint,
                               route_parent = None,
                               route_loader = None\<rparr>]
           in case set_parents children self s1 of
                (Inl e, s2) \<Rightarrow> (Inl e, s2[self := None])
              | (Inr _, s2) \<Rightarrow>
                  let s3 = update_obj self (\<lambda>obj. obj\<lparr>route_loader := loader\<rparr>) s2
                  in case (case single of None \<Rightarrow> None | Some cls \<Rightarrow> restful_loader cls) of
                       None \<Rightarrow> (Inr self, s3)
                     | Some rl \<Rightarrow>
                         if loader \<noteq> None
                         then (Inl (ValueError
                                 ''Please specify either `single.restful_loader` or `loader`''),
                               s3[self := None])
                         else (Inr self,
                               update_obj self (\<lambda>obj. obj\<lparr>route_loader := Some rl\<rparr>) s3))"

text \<open>The property \<open>Route._plural_endpoint\<close>; \<open>s[:-1]\<close> is \<^const>\<open>butlast\<close>.\<close>

definition plural_endpoint_of :: "'l route \<Rightarrow> string" where
  "plural_endpoint_of self =
     (if endswith (lower (route_endpoint self)) ''y''
      then butlast (route_endpoint self) @ ''ies''
      else route_endpoint self @ ''s'')"

section \<open>Registration\<close>

text \<open>
  The framework's \<open>api.add_resource(cls, path, endpoint=name)\<close> is not this repository's:
  it is a parameter, a function from the framework's state to its next state or to the
  exception it raises. \<open>log.debug\<close> only logs.
\<close>

type_synonym ('api, 'l) add_resource = "'api \<Rightarrow> 'l handler \<Rightarrow> string \<Rightarrow> string \<Rightarrow> pyexn + 'api"

text \<open>A \<open>for\<close> loop whose body may raise, or not return.\<close>

fun for_each ::
  "('a \<Rightarrow> 'b \<Rightarrow> 's \<Rightarrow> ((pyexn + 'b) \<times> 's) option) \<Rightarrow> 'a list \<Rightarrow> 'b \<Rightarrow> 's \<Rightarrow>
   ((pyexn + 'b) \<times> 's) option" where
  "for_each f [] b s = Some (Inr b, s)"
| "for_each f (x # xs) b s =
     (case f x b s of
        None \<Rightarrow> None
      | Some (Inl e, s') \<Rightarrow> Some (Inl e, s')
      | Some (Inr b', s') \<Rightarrow> for_each f xs b' s')"

text \<open>
  The heap that registration runs on: the route objects, and the number of class objects
  that \<open>wrapped_cls\<close> has built so far.
\<close>

type_synonym 'l heap = "'l store \<times> nat"

text \<open>
  \<open>Route.register_routes(self, api, endpoint, route)\<close>. The recursion follows the
  children through the store, which nothing bounds, so the first argument is fuel and
  \<open>None\<close> is the call that does not return. A result is the framework's state or the
  exception raised, with the heap as the call leaves it. An address that holds no live
  \<open>Route\<close> has no \<open>register_routes\<close> to call (\<open>AttributeError\<close>); a \<open>_parent\<close> whose
  object is gone raises \<open>ReferenceError\<close> when its \<open>_loader\<close> is read. A class object is
  true in \<open>if self._plural\<close>, \<open>None\<close> is false.
\<close>

primrec register_routes ::
  "nat \<Rightarrow> ('api, 'l) add_resource \<Rightarrow> addr \<Rightarrow> 'api \<Rightarrow> string \<Rightarrow> string \<Rightarrow> 'l heap \<Rightarrow>
   ((pyexn + 'api) \<times> 'l heap) option" where
  "register_routes 0 add_resource self api endpoint route h = None"
| "register_routes (Suc fuel) add_resource self api endpoint route h =
     (case h of (s, k) \<Rightarrow>
      case lookup s self of
        None \<Rightarrow> Some (Inl AttributeError, h)
      | Some obj \<Rightarrow>
          let single_endpoint = endpoint @ route_endpoint obj;
              plural_endpoint = endpoint @ plural_endpoint_of obj;
              base_path = route @ route_route obj;
              single_path = base_path @ ''/<'' @ route_single_type obj @ '':'' @
                            route_safe_endpoint obj @ ''_id>''
          in case (case route_plural obj of
                     None \<Rightarrow> (Inr api, k)
                   | Some plural \<Rightarrow>
                       (case (case route_parent obj of
                                None \<Rightarrow> (Inr (Plain plural), k)
                              | Some p \<Rightarrow>
                                  (case lookup s p of
                                     None \<Rightarrow> (Inl ReferenceError, k)
                                   | Some parent \<Rightarrow>
                                       (case route_loader parent of
                                          None \<Rightarrow> (Inr (Plain plural), k)
                                        | Some parent_loader \<Rightarrow>
                                            (case wrapped_cls plural parent_loader k of
                                               (cls, k') \<Rightarrow>
                                                 (Inr (WrappedCls
                                                        (cls\<lparr>wrapped_name := plural_endpoint\<rparr>)),
                                                  k'))))) of
                          (Inl e, k') \<Rightarrow> (Inl e, k')
                        | (Inr plural_cls, k') \<Rightarrow>
                            (add_resource api plural_cls base_path plural_endpoint, k'))) of
                 (Inl e, k1) \<Rightarrow> Some (Inl e, (s, k1))
               | (Inr api1, k1) \<Rightarrow>
                   (case (case route_single obj of
                            None \<Rightarrow> (Inr api1, k1)
                          | Some single \<Rightarrow>
                              (case (case route_loader obj of
                                       None \<Rightarrow> (Plain single, k1)
                                     | Some l \<Rightarrow>
                                         (case wrapped_cls single l k1 of
                                            (cls, k') \<Rightarrow>
                                              (WrappedCls (cls\<lparr>wrapped_name := single_endpoint\<rparr>),
                                               k'))) of
                                 (single_cls, k') \<Rightarrow>
                                   (add_resource api1 single_cls single_path single_endpoint, k'))) of
                      (Inl e, k2) \<Rightarrow> Some (Inl e, (s, k2))
                    | (Inr api2, k2) \<Rightarrow>
                        for_each
                          (\<lambda>child api'. register_routes fuel add_resource child api'
                                           (plural_endpoint @ ''-'') single_path)
                          (route_children obj) api2 (s, k2)))"

text \<open>\<open>RootRoute\<close>: the constructor stores the children and touches none of them.\<close>

record root_route =
  root_children :: "addr list"

definition RootRoute_init :: "addr list option \<Rightarrow> root_route" where
  "RootRoute_init children =
     \<lparr>root_children = (case children of None \<Rightarrow> [] | Some cs \<Rightarrow> cs)\<rparr>"

text \<open>\<open>RootRoute.register_routes(self, api)\<close>; both prefixes start as the empty string.\<close>

definition RootRoute_register_routes ::
  "nat \<Rightarrow> ('api, 'l) add_resource \<Rightarrow> root_route \<Rightarrow> 'api \<Rightarrow> 'l heap \<Rightarrow>
   ((pyexn + 'api) \<times> 'l heap) option" where
  "RootRoute_register_routes fuel add_resource self api h =
     for_each (\<lambda>child api'. register_routes fuel add_resource child api' [] [])
       (root_children self) api h"

text \<open>
  The framework that only records: its state is the sequence of
  \<open>(handler, path, endpoint name)\<close> triples it was given, in call order, and it never raises.
\<close>

type_synonym 'l registration = "'l handler \<times> string \<times> string"

definition add_resource_rec :: "('l registration list, 'l) add_resource" where
  "add_resource_rec api cls path endpoint = Inr (api @ [(cls, path, endpoint)])"

section \<open>Stores that constructors build\<close>

text \<open>
  The children of an object are constructed before it, so their addresses are smaller
  than its own; the objects that \<open>_children\<close> and \<open>_parent\<close> name are live. Registration
  returns on such a store.
\<close>

definition wf_obj :: "'l store \<Rightarrow> addr \<Rightarrow> 'l route \<Rightarrow> bool" where
  "wf_obj s a obj =
     (list_all (\<lambda>c. c < a \<and> lookup s c \<noteq> None) (route_children obj) \<and>
      (case route_parent obj of None \<Rightarrow> True | Some p \<Rightarrow> lookup s p \<noteq> None))"

definition wf_store :: "'l store \<Rightarrow> bool" where
  "wf_store s =
     list_all (\<lambda>a. case lookup s a of None \<Rightarrow> True | Some obj \<Rightarrow> wf_obj s a obj) [0..<length s]"

text \<open>The loader of the immediate parent of an object, read through \<open>_parent\<close>:
  \<open>None\<close> when the object has no parent or its parent has no loader.\<close>

definition parent_loader :: "'l store \<Rightarrow> 'l route \<Rightarrow> 'l option" where
  "parent_loader s obj =
     (case route_parent obj of
        None \<Rightarrow> None
      | Some p \<Rightarrow> (case lookup s p of None \<Rightarrow> None | Some parent \<Rightarrow> route_loader parent))"

text \<open>The class registered for \<open>cls\<close> under \<open>name\<close>: \<open>cls\<close> itself without a loader,
  with one the wrapped class named \<open>name\<close> that is built when \<open>k\<close> classes have been built.\<close>

definition effective_handler :: "'l resource \<Rightarrow> 'l option \<Rightarrow> string \<Rightarrow> nat \<Rightarrow> 'l handler" where
  "effective_handler cls loader name k =
     (case loader of
        None \<Rightarrow> Plain cls
      | Some l \<Rightarrow> WrappedCls \<lparr>wrapped_id = k, wrapped_base = cls, wrapped_loader = l,
                                wrapped_name = name\<rparr>)"

text \<open>The number of classes a node builds for its plural handler, for its single handler,
  and for both.\<close>

definition plural_classes :: "'l store \<Rightarrow> 'l route \<Rightarrow> nat" where
  "plural_classes s obj =
     (case route_plural obj of
        None \<Rightarrow> 0
      | Some _ \<Rightarrow> (case parent_loader s obj of None \<Rightarrow> 0 | Some _ \<Rightarrow> 1))"

definition single_classes :: "'l route \<Rightarrow> nat" where
  "single_classes obj =
     (case route_single obj of
        None \<Rightarrow> 0
      | Some _ \<Rightarrow> (case route_loader obj of None \<Rightarrow> 0 | Some _ \<Rightarrow> 1))"

definition own_classes :: "'l store \<Rightarrow> 'l route \<Rightarrow> nat" where
  "own_classes s obj = plural_classes s obj + single_classes obj"

text \<open>The registrations a node makes for itself, before it turns to its children, when
  \<open>k\<close> classes have been built.\<close>

definition own_registrations ::
  "'l store \<Rightarrow> 'l route \<Rightarrow> string \<Rightarrow> string \<Rightarrow> nat \<Rightarrow> 'l registration list" where
  "own_registrations s obj endpoint route k =
     (case route_plural obj of
        None \<Rightarrow> []
      | Some plural \<Rightarrow>
          [(effective_handler plural (parent_loader s obj) (endpoint @ plural_endpoint_of obj) k,
            route @ route_route obj,
            endpoint @ plural_endpoint_of obj)]) @
     (case route_single obj of
        None \<Rightarrow> []
      | Some single \<Rightarrow>
          [(effective_handler single (route_loader obj) (endpoint @ route_endpoint obj)
              (k + plural_classes s obj),
            route @ route_route obj @ ''/<'' @ route_single_type obj @ '':'' @
              route_safe_endpoint obj @ ''_id>'',
            endpoint @ route_endpoint obj)])"

text \<open>What registering the object at \<open>a\<close>, with the two prefixes, gives a fresh recording
  framework when \<open>k\<close> classes have been built, and the number of classes built after it.\<close>

definition registrations ::
  "'l store \<Rightarrow> addr \<Rightarrow> string \<Rightarrow> string \<Rightarrow> nat \<Rightarrow> 'l registration list" where
  "registrations s a endpoint route k =
     (case register_routes (Suc a) add_resource_rec a [] endpoint route (s, k) of
        Some (Inr regs, _) \<Rightarrow> regs
      | _ \<Rightarrow> [])"

definition classes_after :: "'l store \<Rightarrow> addr \<Rightarrow> string \<Rightarrow> string \<Rightarrow> nat \<Rightarrow> nat" where
  "classes_after s a endpoint route k =
     (case register_routes (Suc a) add_resource_rec a [] endpoint route (s, k) of
        Some (_, (_, k')) \<Rightarrow> k'
      | None \<Rightarrow> k)"

text \<open>The same for a list of objects registered one after the other with the same
  prefixes: each starts from the number of classes the one before it left.\<close>

primrec children_registrations ::
  "'l store \<Rightarrow> addr list \<Rightarrow> string \<Rightarrow> string \<Rightarrow> nat \<Rightarrow> 'l registration list" where
  "children_registrations s [] endpoint route k = []"
| "children_registrations s (c # cs) endpoint route k =
     registrations s c endpoint route k @
     children_registrations s cs endpoint route (classes_after s c endpoint route k)"

primrec children_classes_after ::
  "'l store \<Rightarrow> addr list \<Rightarrow> string \<Rightarrow> string \<Rightarrow> nat \<Rightarrow> nat" where
  "children_classes_after s [] endpoint route k = k"
| "children_classes_after s (c # cs) endpoint route k =
     children_classes_after s cs endpoint route (classes_after s c endpoint route k)"


text \<open>
  A store for examples: an \<open>org\<close> node with a loader and no handler, its child \<open>user\<close>
  with both handlers and no loader, and that node's child \<open>post\<close> with both handlers and a
  loader of its own. Three calls of the constructor build it.
\<close>

definition example_store :: "nat store" where
  "example_store =
     [Some \<lparr>route_children = [], route_endpoint = ''post'', route_route = ''/posts'',
            route_single = Some (Resource ''Post'' None),
            route_plural = Some (Resource ''Posts'' None),
            route_single_type = ''int'', route_safe_endpoint = ''post'',
            route_parent = Some 1, route_loader = Some 7\<rparr>,
      Some \<lparr>route_children = [0], route_endpoint = ''user'', route_route = ''/users'',
            route_single = Some (Resource ''User'' None),
            route_plural = Some (Resource ''Users'' None),
            route_single_type = ''int'', route_safe_endpoint = ''user'',
            route_parent = Some 2, route_loader = None\<rparr>,
      Some \<lparr>route_children = [1], route_endpoint = ''org'', route_route = ''/orgs'',
            route_single = None, route_plural = None,
            route_single_type = ''int'', route_safe_endpoint = ''org'',
            route_parent = None, route_loader = Some 9\<rparr>]"

text \<open>
  The tree of users and their posts: a \<open>post\<close> node with both handlers and no loader,
  then its parent, a \<open>user\<close> node with both handlers and the loader \<open>5\<close>.
\<close>

definition users_posts_store0 :: "nat store" where
  "users_posts_store0 =
     snd (Route_init ''post'' ''/posts'' (Some (Resource ''P'' None)) (Some (Resource ''p'' None))
            None default_single_type None [])"

definition users_posts_store :: "nat store" where
  "users_posts_store =
     snd (Route_init ''user'' ''/users'' (Some (Resource ''U'' None)) (Some (Resource ''u'' None))
            (Some [0]) default_single_type (Some 5) users_posts_store0)"

section \<open>Facts about the string helpers\<close>

lemma char_eq_iff_nat: "(c = d) = ((of_char c :: nat) = of_char d)"
  by (simp only: of_char_eq_iff)

lemma of_char_lower_char:
  "(of_char (lower_char c) :: nat) =
     (if (65 \<le> (of_char c :: nat) \<and> (of_char c :: nat) \<le> 90) \<or>
         (192 \<le> (of_char c :: nat) \<and> (of_char c :: nat) \<le> 222 \<and> (of_char c :: nat) \<noteq> 215)
      then of_char c + 32 else of_char c)"
proof -
  have lt: "(of_char c :: nat) < 256" by simp
  then show ?thesis by (auto simp: lower_char_def Let_def)
qed

lemma lower_char_eq_s: "lower_char c = CHR ''s'' \<longleftrightarrow> c = CHR ''s'' \<or> c = CHR ''S''"
proof -
  have "lower_char c = CHR ''s'' \<longleftrightarrow> (of_char (lower_char c) :: nat) = 115"
    by (subst char_eq_iff_nat) simp
  also have "\<dots> \<longleftrightarrow> (of_char c :: nat) = 115 \<or> (of_char c :: nat) = 83"
    by (auto simp: of_char_lower_char)
  also have "\<dots> \<longleftrightarrow> c = CHR ''s'' \<or> c = CHR ''S''"
    by (subst (1 2) char_eq_iff_nat) simp
  finally show ?thesis .
qed

lemma lower_char_eq_y: "lower_char c = CHR ''y'' \<longleftrightarrow> c = CHR ''y'' \<or> c = CHR ''Y''"
proof -
  have "lower_char c = CHR ''y'' \<longleftrightarrow> (of_char (lower_char c) :: nat) = 121"
    by (subst char_eq_iff_nat) simp
  also have "\<dots> \<longleftrightarrow> (of_char c :: nat) = 121 \<or> (of_char c :: nat) = 89"
    by (auto simp: of_char_lower_char)
  also have "\<dots> \<longleftrightarrow> c = CHR ''y'' \<or> c = CHR ''Y''"
    by (subst (1 2) char_eq_iff_nat) simp
  finally show ?thesis .
qed

lemma endswith_single: "endswith s [c] = (s \<noteq> [] \<and> last s = c)"
proof (cases s rule: rev_cases)
  case Nil
  then show ?thesis by (simp add: endswith_def)
next
  case (snoc ys y)
  then show ?thesis by (simp add: endswith_def)
qed

lemma endswith_lower_s:
  "endswith (lower e) ''s'' = (e \<noteq> [] \<and> (last e = CHR ''s'' \<or> last e = CHR ''S''))"
  by (cases "e = []") (simp_all add: endswith_single lower_def last_map lower_char_eq_s)

lemma endswith_lower_y:
  "endswith (lower e) ''y'' = (e \<noteq> [] \<and> (last e = CHR ''y'' \<or> last e = CHR ''Y''))"
  by (cases "e = []") (simp_all add: endswith_single lower_def last_map lower_char_eq_y)

section \<open>Facts about the store and the constructor\<close>

lemma lookup_update_obj:
  "lookup (update_obj a f s) b = (if b = a then map_option f (lookup s a) else lookup s b)"
  by (auto simp: lookup_def update_obj_def)

lemma length_update_obj: "length (update_obj a f s) = length s"
  by (simp add: update_obj_def)

lemma set_parents_live:
  "\<forall>c\<in>set cs. lookup s c \<noteq> None \<Longrightarrow>
   \<exists>s'. set_parents cs self s = (Inr (), s') \<and> length s' = length s \<and>
        (\<forall>a. lookup s' a =
              (if a \<in> set cs then map_option (\<lambda>obj. obj\<lparr>route_parent := Some self\<rparr>) (lookup s a)
               else lookup s a))"
proof (induction cs arbitrary: s)
  case Nil
  then show ?case by simp
next
  case (Cons c cs)
  let ?s1 = "update_obj c (\<lambda>obj. obj\<lparr>route_parent := Some self\<rparr>) s"
  from Cons.prems have live: "lookup s c \<noteq> None" by simp
  then have step: "set_parent c self s = (Inr (), ?s1)"
    by (auto simp: set_parent_def)
  have "\<forall>d\<in>set cs. lookup ?s1 d \<noteq> None"
    using Cons.prems by (auto simp: lookup_update_obj)
  from Cons.IH [OF this] obtain s' where
    s': "set_parents cs self ?s1 = (Inr (), s')" "length s' = length ?s1"
      "\<forall>a. lookup s' a =
              (if a \<in> set cs then map_option (\<lambda>obj. obj\<lparr>route_parent := Some self\<rparr>) (lookup ?s1 a)
               else lookup ?s1 a)"
    by blast
  have "set_parents (c # cs) self s = (Inr (), s')"
    using step s'(1) by simp
  moreover have "length s' = length s"
    using s'(2) by (simp add: length_update_obj)
  moreover have "\<forall>a. lookup s' a =
              (if a \<in> set (c # cs) then map_option (\<lambda>obj. obj\<lparr>route_parent := Some self\<rparr>) (lookup s a)
               else lookup s a)"
    using s'(3) by (auto simp: lookup_update_obj option.map_comp comp_def)
  ultimately show ?case by blast
qed


lemma lookup_append_new: "lookup (s @ [x]) a = (if a = length s then x else lookup s a)"
  by (auto simp: lookup_def nth_append)

lemma lookup_live_less: "lookup s a \<noteq> None \<Longrightarrow> a < length s"
  by (auto simp: lookup_def split: if_splits)

lemma Route_init_set_parents:
  assumes live: "\<forall>c\<in>set cs. lookup s c \<noteq> None"
  shows "\<exists>s2. set_parents cs (length s) (s @ [Some obj]) = (Inr (), s2) \<and>
              length s2 = Suc (length s) \<and> lookup s2 (length s) = Some obj"
proof -
  have notin: "length s \<notin> set cs"
    using live lookup_live_less by fastforce
  have "\<forall>c\<in>set cs. lookup (s @ [Some obj]) c \<noteq> None"
    using live by (auto simp: lookup_append_new)
  from set_parents_live [OF this, of "length s"] obtain s2 where
    s2: "set_parents cs (length s) (s @ [Some obj]) = (Inr (), s2)"
        "length s2 = length (s @ [Some obj])"
        "\<forall>a. lookup s2 a =
              (if a \<in> set cs
               then map_option (\<lambda>obj. obj\<lparr>route_parent := Some (length s)\<rparr>) (lookup (s @ [Some obj]) a)
               else lookup (s @ [Some obj]) a)"
    by blast
  have "lookup s2 (length s) = Some obj"
    using s2(3) notin by (simp add: lookup_append_new)
  with s2(1,2) show ?thesis by simp
qed

lemma is_sequence_type_of:
  "is_sequence v \<Longrightarrow> type_of v \<noteq> TLoaderResponse \<and> type_of v \<noteq> TDict"
  by (cases v) simp_all

section \<open>Facts about registration\<close>




lemma wf_storeD: "wf_store s \<Longrightarrow> lookup s a = Some obj \<Longrightarrow> wf_obj s a obj"
proof -
  assume wf: "wf_store s" and l: "lookup s a = Some obj"
  from l have "a < length s" by (auto simp: lookup_def split: if_splits)
  then have "a \<in> set [0..<length s]" by simp
  with wf have "case lookup s a of None \<Rightarrow> True | Some obj \<Rightarrow> wf_obj s a obj"
    unfolding wf_store_def list_all_iff by blast
  with l show ?thesis by simp
qed

lemma register_routes_Suc_rec:
  assumes "lookup s a = Some obj"
    and "case route_parent obj of None \<Rightarrow> True | Some p \<Rightarrow> lookup s p \<noteq> None"
  shows "register_routes (Suc m) add_resource_rec a api E P (s, k) =
           for_each
             (\<lambda>child api'. register_routes m add_resource_rec child api'
                (E @ plural_endpoint_of obj @ ''-'')
                (P @ route_route obj @ ''/<'' @ route_single_type obj @ '':'' @
                 route_safe_endpoint obj @ ''_id>''))
             (route_children obj) (api @ own_registrations s obj E P k)
             (s, k + own_classes s obj)"
  using assms
  by (auto simp: Let_def own_registrations_def effective_handler_def parent_loader_def
        own_classes_def plural_classes_def single_classes_def
        wrapped_cls_def add_resource_rec_def split: option.splits)

lemma for_each_children:
  assumes "\<And>x b k. x \<in> set xs \<Longrightarrow>
             f x b (s, k) = Some (Inr (b @ registrations s x E P k), (s, classes_after s x E P k))"
  shows "for_each f xs b (s, k) =
           Some (Inr (b @ children_registrations s xs E P k), (s, children_classes_after s xs E P k))"
  using assms by (induction xs arbitrary: b k) simp_all


lemma register_routes_rec:
  assumes wf: "wf_store s"
  shows "lookup s a = Some obj \<Longrightarrow> a < n \<Longrightarrow>
    register_routes n add_resource_rec a api E P (s, k) =
      Some (Inr (api @ registrations s a E P k), (s, classes_after s a E P k)) \<and>
    registrations s a E P k =
      own_registrations s obj E P k @
      children_registrations s (route_children obj) (E @ plural_endpoint_of obj @ ''-'')
        (P @ route_route obj @ ''/<'' @ route_single_type obj @ '':'' @
         route_safe_endpoint obj @ ''_id>'')
        (k + own_classes s obj) \<and>
    classes_after s a E P k =
      children_classes_after s (route_children obj) (E @ plural_endpoint_of obj @ ''-'')
        (P @ route_route obj @ ''/<'' @ route_single_type obj @ '':'' @
         route_safe_endpoint obj @ ''_id>'')
        (k + own_classes s obj)"
proof (induction a arbitrary: obj n api E P k rule: less_induct)
  case (less a)
  from less.prems(2) obtain m where n: "n = Suc m" and am: "a \<le> m"
    by (cases n) simp_all
  from wf_storeD [OF wf less.prems(1)] have wfo: "wf_obj s a obj" .
  let ?E' = "E @ plural_endpoint_of obj @ ''-''"
  let ?P' = "P @ route_route obj @ ''/<'' @ route_single_type obj @ '':'' @
                                     route_safe_endpoint obj @ ''_id>''"
  let ?k1 = "k + own_classes s obj"
  have child: "register_routes j add_resource_rec c b ?E' ?P' (s, k') =
                 Some (Inr (b @ registrations s c ?E' ?P' k'), (s, classes_after s c ?E' ?P' k'))"
    if c: "c \<in> set (route_children obj)" and j: "c < j" for c b j k'
  proof -
    from wfo c have ca: "c < a" and "lookup s c \<noteq> None"
      by (auto simp: wf_obj_def list_all_iff)
    then obtain cobj where cobj: "lookup s c = Some cobj" by auto
    from less.IH [OF ca cobj j, of b ?E' ?P' k'] show ?thesis by simp
  qed
  have loop: "for_each (\<lambda>child api'. register_routes j add_resource_rec child api' ?E' ?P')
                (route_children obj) b (s, k') =
              Some (Inr (b @ children_registrations s (route_children obj) ?E' ?P' k'),
                    (s, children_classes_after s (route_children obj) ?E' ?P' k'))"
    if "a \<le> j" for b j k'
  proof (rule for_each_children)
    fix x b' k''
    assume x: "x \<in> set (route_children obj)"
    with wfo have "x < a" by (auto simp: wf_obj_def list_all_iff)
    with that have "x < j" by simp
    from child [OF x this] show "register_routes j add_resource_rec x b' ?E' ?P' (s, k'') =
        Some (Inr (b' @ registrations s x ?E' ?P' k''), (s, classes_after s x ?E' ?P' k''))" .
  qed
  from wfo have parent: "case route_parent obj of None \<Rightarrow> True | Some p \<Rightarrow> lookup s p \<noteq> None"
    by (simp add: wf_obj_def)
  note step = register_routes_Suc_rec [OF less.prems(1) parent]
  have run: "register_routes (Suc j) add_resource_rec a b E P (s, k) =
               Some (Inr ((b @ own_registrations s obj E P k) @
                          children_registrations s (route_children obj) ?E' ?P' ?k1),
                     (s, children_classes_after s (route_children obj) ?E' ?P' ?k1))"
    if "a \<le> j" for b j
    unfolding step loop [OF that] ..
  have regs: "registrations s a E P k =
                own_registrations s obj E P k @
                children_registrations s (route_children obj) ?E' ?P' ?k1"
    unfolding registrations_def run [OF order_refl] by simp
  have cls: "classes_after s a E P k =
               children_classes_after s (route_children obj) ?E' ?P' ?k1"
    unfolding classes_after_def run [OF order_refl] by simp
  have "register_routes n add_resource_rec a api E P (s, k) =
          Some (Inr (api @ registrations s a E P k), (s, classes_after s a E P k))"
    unfolding n run [OF am] regs cls by simp
  with regs cls show ?case by simp
qed

lemma register_routes_registrations:
  assumes "wf_store s" and "lookup s c = Some cobj" and "c < j"
  shows "register_routes j add_resource_rec c b E P (s, k) =
           Some (Inr (b @ registrations s c E P k), (s, classes_after s c E P k))"
  using register_routes_rec [OF assms, of b E P k] by simp




section \<open>The constructor keeps the store well formed\<close>

text \<open>
  The empty store is well formed, and a successful call of the constructor on a well-formed
  store, with children that are live routes, leaves a well-formed store: the stores that
  the theorems on registration speak of are the ones an application builds.
\<close>

lemma wf_store_iff:
  "wf_store s \<longleftrightarrow> (\<forall>a obj. lookup s a = Some obj \<longrightarrow> wf_obj s a obj)"
proof
  assume "wf_store s"
  then show "\<forall>a obj. lookup s a = Some obj \<longrightarrow> wf_obj s a obj"
    by (blast intro: wf_storeD)
next
  assume r: "\<forall>a obj. lookup s a = Some obj \<longrightarrow> wf_obj s a obj"
  show "wf_store s"
    unfolding wf_store_def list_all_iff
  proof
    fix a
    assume "a \<in> set [0..<length s]"
    show "case lookup s a of None \<Rightarrow> True | Some obj \<Rightarrow> wf_obj s a obj"
      using r by (cases "lookup s a") simp_all
  qed
qed

lemma Route_init_store:
  assumes live: "\<forall>c\<in>set (case children of None \<Rightarrow> [] | Some cs \<Rightarrow> cs). lookup s c \<noteq> None"
    and ok: "Route_init e r plural single children single_type loader s = (Inr a, s')"
  shows "a = length s \<and>
         (\<exists>obj. lookup s' (length s) = Some obj \<and> route_parent obj = None \<and>
                route_children obj = (case children of None \<Rightarrow> [] | Some cs \<Rightarrow> cs)) \<and>
         (\<forall>b. b \<noteq> length s \<longrightarrow>
              lookup s' b =
                (if b \<in> set (case children of None \<Rightarrow> [] | Some cs \<Rightarrow> cs)
                 then map_option (\<lambda>obj. obj\<lparr>route_parent := Some (length s)\<rparr>) (lookup s b)
                 else lookup s b))"
proof -
  define cs where "cs = (case children of None \<Rightarrow> [] | Some cs \<Rightarrow> cs)"
  define obj :: "'a route" where "obj = \<lparr>route_children = cs,
                               route_endpoint = e,
                               route_route = r,
                               route_single = single,
                               route_plural = plural,
                               route_single_type = single_type,
                               route_safe_endpoint = re_sub_non_alnum e,
                               route_parent = None,
                               route_loader = None\<rparr>"
  from ok have ne: "\<not> endswith (lower e) ''s''"
    by (auto simp: Route_init_def split: if_splits)
  from live have live': "\<forall>c\<in>set cs. lookup s c \<noteq> None" by (simp add: cs_def)
  have notin: "length s \<notin> set cs"
    using live' lookup_live_less by fastforce
  have "\<forall>c\<in>set cs. lookup (s @ [Some obj]) c \<noteq> None"
    using live' by (auto simp: lookup_append_new)
  from set_parents_live [OF this, of "length s"] obtain s2 where
    s2: "set_parents cs (length s) (s @ [Some obj]) = (Inr (), s2)"
        "length s2 = length (s @ [Some obj])"
        "\<forall>a. lookup s2 a =
              (if a \<in> set cs
               then map_option (\<lambda>obj. obj\<lparr>route_parent := Some (length s)\<rparr>) (lookup (s @ [Some obj]) a)
               else lookup (s @ [Some obj]) a)"
    by blast
  have self2: "lookup s2 (length s) = Some obj"
    using s2(3) notin by (simp add: lookup_append_new)
  have other2: "lookup s2 b =
                (if b \<in> set cs
                 then map_option (\<lambda>obj. obj\<lparr>route_parent := Some (length s)\<rparr>) (lookup s b)
                 else lookup s b)" if "b \<noteq> length s" for b
    using s2(3) that by (simp add: lookup_append_new)
  from ok ne s2(1) have
    "(Inr a, s') =
       (let s3 = update_obj (length s) (\<lambda>obj. obj\<lparr>route_loader := loader\<rparr>) s2
        in case (case single of None \<Rightarrow> None | Some cls \<Rightarrow> restful_loader cls) of
             None \<Rightarrow> (Inr (length s), s3)
           | Some rl \<Rightarrow>
               if loader \<noteq> None
               then (Inl (ValueError
                       ''Please specify either `single.restful_loader` or `loader`''),
                     s3[length s := None])
               else (Inr (length s),
                     update_obj (length s) (\<lambda>obj. obj\<lparr>route_loader := Some rl\<rparr>) s3))"
    by (simp add: Route_init_def Let_def cs_def [symmetric] obj_def [symmetric])
  then consider
      (plain) "a = length s" "s' = update_obj (length s) (\<lambda>obj. obj\<lparr>route_loader := loader\<rparr>) s2"
    | (cap) rl where "a = length s"
        "s' = update_obj (length s) (\<lambda>obj. obj\<lparr>route_loader := Some rl\<rparr>)
                (update_obj (length s) (\<lambda>obj. obj\<lparr>route_loader := loader\<rparr>) s2)"
    by (auto simp: Let_def split: option.splits if_splits)
  then show ?thesis
  proof cases
    case plain
    then show ?thesis
      using self2 other2 by (auto simp: lookup_update_obj obj_def cs_def)
  next
    case cap
    then show ?thesis
      using self2 other2 by (auto simp: lookup_update_obj obj_def cs_def)
  qed
qed

lemma Route_init_wf:
  assumes wf: "wf_store s"
    and live: "\<forall>c\<in>set (case children of None \<Rightarrow> [] | Some cs \<Rightarrow> cs). lookup s c \<noteq> None"
    and ok: "Route_init e r plural single children single_type loader s = (Inr a, s')"
  shows "wf_store s'"
proof -
  define cs where "cs = (case children of None \<Rightarrow> [] | Some cs \<Rightarrow> cs)"
  note S = Route_init_store [OF live ok, folded cs_def]
  from S obtain new where new: "lookup s' (length s) = Some new" "route_parent new = None"
    "route_children new = cs" by blast
  from S have other: "lookup s' b =
                (if b \<in> set cs
                 then map_option (\<lambda>obj. obj\<lparr>route_parent := Some (length s)\<rparr>) (lookup s b)
                 else lookup s b)" if "b \<noteq> length s" for b
    using that by blast
  from live have live': "\<forall>c\<in>set cs. lookup s c \<noteq> None" by (simp add: cs_def)
  have keep: "lookup s' c \<noteq> None" if "lookup s c \<noteq> None" for c
  proof -
    from that have "c \<noteq> length s" using lookup_live_less by fastforce
    from other [OF this] that show ?thesis by auto
  qed
  show ?thesis
    unfolding wf_store_iff
  proof (intro allI impI)
    fix b obj
    assume b: "lookup s' b = Some obj"
    show "wf_obj s' b obj"
    proof (cases "b = length s")
      case True
      with b new have "obj = new" by simp
      with new live' True show ?thesis
        using lookup_live_less keep by (fastforce simp: wf_obj_def list_all_iff)
    next
      case False
      have "lookup s b \<noteq> None"
      proof
        assume "lookup s b = None"
        with other [OF False] have "lookup s' b = None" by simp
        with b show False by simp
      qed
      then obtain old where old: "lookup s b = Some old" by auto
      have "lookup s' b =
              Some (if b \<in> set cs then old\<lparr>route_parent := Some (length s)\<rparr> else old)"
        unfolding other [OF False] old by simp
      with b have obj: "obj = (if b \<in> set cs then old\<lparr>route_parent := Some (length s)\<rparr> else old)"
        by simp
      from wf_storeD [OF wf old] have wfo: "wf_obj s b old" .
      have ch: "list_all (\<lambda>c. c < b \<and> lookup s' c \<noteq> None) (route_children obj)"
        using wfo obj keep by (auto simp: wf_obj_def list_all_iff)
      have par: "case route_parent obj of None \<Rightarrow> True | Some p \<Rightarrow> lookup s' p \<noteq> None"
        using wfo obj keep new(1) by (auto simp: wf_obj_def split: option.splits)
      from ch par show ?thesis by (simp add: wf_obj_def)
    qed
  qed
qed

lemma wf_store_empty: "wf_store []"
  by (simp add: wf_store_def)

section \<open>The example store\<close>

lemmas eval_simps = Route_init_def endswith_lower_s endswith_lower_y re_sub_non_alnum_def is_alnum_def
        update_obj_def lookup_def set_parent_def RootRoute_register_routes_def RootRoute_init_def
        plural_endpoint_of_def wrapped_cls_def add_resource_rec_def default_single_type_def
        Let_def

lemma example_store_built:
  "(case Route_init ''post'' ''/posts'' (Some (Resource ''Posts'' None))
           (Some (Resource ''Post'' None)) None default_single_type (Some 7) [] of
      (Inr b, s1) \<Rightarrow>
        (case Route_init ''user'' ''/users'' (Some (Resource ''Users'' None))
                (Some (Resource ''User'' None)) (Some [b]) default_single_type None s1 of
           (Inr a, s2) \<Rightarrow>
             Route_init ''org'' ''/orgs'' None None (Some [a]) default_single_type (Some 9) s2 =
               (Inr 2, example_store)
         | (Inl e, s2) \<Rightarrow> False)
    | (Inl e, s1) \<Rightarrow> False)"
  by (simp add: eval_simps example_store_def)

lemma wf_example_store: "wf_store example_store"
  by (simp add: wf_store_def wf_obj_def example_store_def lookup_def upt_rec_numeral)

lemma lookup_example_store:
  "lookup example_store 0 = Some \<lparr>route_children = [], route_endpoint = ''post'', route_route = ''/posts'',
            route_single = Some (Resource ''Post'' None),
            route_plural = Some (Resource ''Posts'' None),
            route_single_type = ''int'', route_safe_endpoint = ''post'',
            route_parent = Some 1, route_loader = Some 7\<rparr>"
  "lookup example_store (Suc 0) = Some \<lparr>route_children = [0], route_endpoint = ''user'', route_route = ''/users'',
            route_single = Some (Resource ''User'' None),
            route_plural = Some (Resource ''Users'' None),
            route_single_type = ''int'', route_safe_endpoint = ''user'',
            route_parent = Some 2, route_loader = None\<rparr>"
  "lookup example_store 2 = Some \<lparr>route_children = [1], route_endpoint = ''org'', route_route = ''/orgs'',
            route_single = None, route_plural = None,
            route_single_type = ''int'', route_safe_endpoint = ''org'',
            route_parent = None, route_loader = Some 9\<rparr>"
  by (simp_all add: example_store_def lookup_def)

lemma registrations_example_post:
  "registrations example_store 0 ''orgs-users-'' ''/orgs/<int:org_id>/users/<int:user_id>'' k =
     [(Plain (Resource ''Posts'' None),
       ''/orgs/<int:org_id>/users/<int:user_id>/posts'', ''orgs-users-posts''),
      (WrappedCls \<lparr>wrapped_id = k, wrapped_base = Resource ''Post'' None, wrapped_loader = 7,
                   wrapped_name = ''orgs-users-post''\<rparr>,
       ''/orgs/<int:org_id>/users/<int:user_id>/posts/<int:post_id>'', ''orgs-users-post'')]"
  "classes_after example_store 0 ''orgs-users-'' ''/orgs/<int:org_id>/users/<int:user_id>'' k = Suc k"
  by (simp_all add: registrations_def classes_after_def lookup_example_store plural_endpoint_of_def
        endswith_lower_y wrapped_cls_def add_resource_rec_def Let_def)

lemma registrations_example_user:
  "registrations example_store (Suc 0) ''orgs-'' ''/orgs/<int:org_id>'' k =
     [(WrappedCls \<lparr>wrapped_id = k, wrapped_base = Resource ''Users'' None, wrapped_loader = 9,
                   wrapped_name = ''orgs-users''\<rparr>,
       ''/orgs/<int:org_id>/users'', ''orgs-users''),
      (Plain (Resource ''User'' None),
       ''/orgs/<int:org_id>/users/<int:user_id>'', ''orgs-user''),
      (Plain (Resource ''Posts'' None),
       ''/orgs/<int:org_id>/users/<int:user_id>/posts'', ''orgs-users-posts''),
      (WrappedCls \<lparr>wrapped_id = Suc k, wrapped_base = Resource ''Post'' None, wrapped_loader = 7,
                   wrapped_name = ''orgs-users-post''\<rparr>,
       ''/orgs/<int:org_id>/users/<int:user_id>/posts/<int:post_id>'', ''orgs-users-post'')]"
  "classes_after example_store (Suc 0) ''orgs-'' ''/orgs/<int:org_id>'' k = Suc (Suc k)"
  by (simp_all add: registrations_def classes_after_def lookup_example_store plural_endpoint_of_def
        endswith_lower_y wrapped_cls_def add_resource_rec_def Let_def)


section \<open>The wrapped dispatch\<close>

text \<open>The dict branch in general: the positional arguments are the ones that came in.\<close>

lemma dispatch_request_dict:
  "wrapped_loader w args kwargs = Inr (PDict d) \<Longrightarrow>
   dispatch_request super_dispatch w args kwargs tr =
     (super_dispatch (wrapped_base w) args d, tr @ [SuperDispatch args d])"
  by (simp add: dispatch_request_def)

text \<open>
  Claim C1. When the loader returns a dict, the wrapped dispatch is claimed to call the
  base class's dispatch with that dict as keyword arguments and with no positional
  argument, whatever positional arguments came in. The dict branch assigns \<open>kwargs\<close>
  only: the positional arguments reach the base class as they came in. Here the wrapped
  dispatch is called with the positional argument \<open>1\<close> and a loader that returns
  \<open>{'account': 7}\<close>; the base class is called with \<open>(1, account=7)\<close>, not with
  \<open>(account=7)\<close>.
\<close>

theorem dispatch_request_dict_keeps_args:
  "dispatch_request (\<lambda>cls args kwargs. Inr PNone)
     \<lparr>wrapped_id = 0, wrapped_base = Resource ''Account'' None,
      wrapped_loader = (\<lambda>args kwargs. Inr (PDict [(''account'', PInt 7)])),
      wrapped_name = ''account''\<rparr>
     [PInt 1] [] []
   = (Inr PNone, [SuperDispatch [PInt 1] [(''account'', PInt 7)]])"
  by (simp add: dispatch_request_def)

text \<open>
  Claim C5. When the loader returns a \<open>LoaderResponse\<close> with body \<open>b\<close> and code \<open>c\<close>,
  the wrapped dispatch returns the pair \<open>(b, c)\<close> and the base class's dispatch is not
  called: the trace of its calls is as it was.
\<close>

theorem dispatch_request_loader_response:
  "wrapped_loader w args kwargs = Inr (PLoaderResponse b c) \<Longrightarrow>
   dispatch_request super_dispatch w args kwargs tr = (Inr (PTuple [b, c]), tr)"
  by (simp add: dispatch_request_def)

theorem dispatch_request_loader_response_witness:
  "dispatch_request (\<lambda>cls args kwargs. Inr (PStr ''reached''))
     \<lparr>wrapped_id = 0, wrapped_base = Resource ''User'' None,
      wrapped_loader =
        (\<lambda>args kwargs. Inr (LoaderResponse_init (PStr ''not found'') (Some (PInt 404)))),
      wrapped_name = ''user''\<rparr>
     [] [(''user_id'', PInt 3)] []
   = (Inr (PTuple [PStr ''not found'', PInt 404]), [])"
  using dispatch_request_loader_response
    [of "\<lparr>wrapped_id = 0, wrapped_base = Resource ''User'' None,
          wrapped_loader =
            (\<lambda>args kwargs. Inr (LoaderResponse_init (PStr ''not found'') (Some (PInt 404)))),
          wrapped_name = ''user''\<rparr>"
        "[]" "[(''user_id'', PInt 3)]" "PStr ''not found''" "PInt 404"
        "\<lambda>cls args kwargs. Inr (PStr ''reached'')" "[]"]
  by (simp add: LoaderResponse_init_def)

text \<open>
  Claim C10. The branches test the exact type of the loader's result. A result that is
  an ordered sequence other than an exact \<open>tuple\<close> (a list, a string, an instance of a
  subclass of tuple or list) is passed whole, as the one positional argument, with no
  keyword argument; its elements are not spread.
\<close>

theorem dispatch_request_sequence_not_tuple:
  "wrapped_loader w args kwargs = Inr v \<Longrightarrow> is_sequence v \<Longrightarrow> type_of v \<noteq> TTuple \<Longrightarrow>
   dispatch_request super_dispatch w args kwargs tr =
     (super_dispatch (wrapped_base w) [v] [], tr @ [SuperDispatch [v] []])"
  using is_sequence_type_of [of v] by (simp add: dispatch_request_def)

theorem dispatch_request_sequence_not_tuple_witness:
  "dispatch_request (\<lambda>cls args kwargs. Inr (PInt (int (length args))))
     \<lparr>wrapped_id = 0, wrapped_base = Resource ''User'' None,
      wrapped_loader = (\<lambda>args kwargs. Inr (PList [PInt 1, PInt 2])),
      wrapped_name = ''user''\<rparr>
     [] [(''user_id'', PInt 3)] []
   = (Inr (PInt 1), [SuperDispatch [PList [PInt 1, PInt 2]] []])"
  using dispatch_request_sequence_not_tuple
    [of "\<lparr>wrapped_id = 0, wrapped_base = Resource ''User'' None,
          wrapped_loader = (\<lambda>args kwargs. Inr (PList [PInt 1, PInt 2])),
          wrapped_name = ''user''\<rparr>"
        "[]" "[(''user_id'', PInt 3)]" "PList [PInt 1, PInt 2]"
        "\<lambda>cls args kwargs. Inr (PInt (int (length args)))" "[]"]
  by simp

section \<open>The constructor\<close>

text \<open>
  Claim C6. With no conflict between the two sources of a loader (and children that are
  live routes), constructing a \<open>Route\<close> with endpoint \<open>e\<close> raises the endpoint error,
  whose message names \<open>e\<close> and the route, exactly when the last character of \<open>e\<close> is
  \<open>s\<close> or \<open>S\<close>; otherwise it returns the new object. Only the last character counts.
\<close>

theorem Route_init_endpoint_check:
  assumes "loader = None \<or> (case single of None \<Rightarrow> True | Some cls \<Rightarrow> restful_loader cls = None)"
    and "\<forall>c\<in>set (case children of None \<Rightarrow> [] | Some cs \<Rightarrow> cs). lookup s c \<noteq> None"
  shows "fst (Route_init e r plural single children single_type loader s) =
           (if e \<noteq> [] \<and> (last e = CHR ''s'' \<or> last e = CHR ''S'')
            then Inl (ValueError (''Endpoints must be singular. Passed endpoint '' @ e @
                                  '' with route '' @ r))
            else Inr (length s))"
proof (cases "endswith (lower e) ''s''")
  case True
  moreover from True have "e \<noteq> [] \<and> (last e = CHR ''s'' \<or> last e = CHR ''S'')"
    by (simp add: endswith_lower_s)
  ultimately show ?thesis
    by (simp add: Route_init_def)
next
  case False
  define cs where "cs = (case children of None \<Rightarrow> [] | Some cs \<Rightarrow> cs)"
  define obj :: "'a route" where "obj = \<lparr>route_children = cs,
                               route_endpoint = e,
                               route_route = r,
                               route_single = single,
                               route_plural = plural,
                               route_single_type = single_type,
                               route_safe_endpoint = re_sub_non_alnum e,
                               route_parent = None,
                               route_loader = None\<rparr>"
  from assms(2) have "\<forall>c\<in>set cs. lookup s c \<noteq> None" by (simp add: cs_def)
  from Route_init_set_parents [OF this, of obj] obtain s2 where
    s2: "set_parents cs (length s) (s @ [Some obj]) = (Inr (), s2)" by blast
  have e: "\<not> (e \<noteq> [] \<and> (last e = CHR ''s'' \<or> last e = CHR ''S''))"
    using False by (simp add: endswith_lower_s)
  show ?thesis
    using False e s2 assms(1)
    by (auto simp: Route_init_def Let_def cs_def [symmetric] obj_def [symmetric]
             split: option.splits)
qed

theorem Route_init_endpoint_check_witness:
  "fst (Route_init ''users'' ''/users'' None None None ''int'' (None :: nat option) []) =
     Inl (ValueError ''Endpoints must be singular. Passed endpoint users with route /users'') \<and>
   fst (Route_init ''boss'' ''/boss'' None None None ''int'' (None :: nat option) []) =
     Inl (ValueError ''Endpoints must be singular. Passed endpoint boss with route /boss'') \<and>
   fst (Route_init ''BUS'' ''/bus'' None None None ''int'' (None :: nat option) []) =
     Inl (ValueError ''Endpoints must be singular. Passed endpoint BUS with route /bus'') \<and>
   fst (Route_init ''user'' ''/users'' None None None ''int'' (None :: nat option) []) = Inr 0 \<and>
   fst (Route_init ''sense'' ''/senses'' None None None ''int'' (None :: nat option) []) = Inr 0"
  using Route_init_endpoint_check [where loader = "None :: nat option" and single = None
          and children = None and s = "[]" and e = "''users''" and r = "''/users''"
          and plural = None and single_type = "''int''"]
        Route_init_endpoint_check [where loader = "None :: nat option" and single = None
          and children = None and s = "[]" and e = "''boss''" and r = "''/boss''"
          and plural = None and single_type = "''int''"]
        Route_init_endpoint_check [where loader = "None :: nat option" and single = None
          and children = None and s = "[]" and e = "''BUS''" and r = "''/bus''"
          and plural = None and single_type = "''int''"]
        Route_init_endpoint_check [where loader = "None :: nat option" and single = None
          and children = None and s = "[]" and e = "''user''" and r = "''/users''"
          and plural = None and single_type = "''int''"]
        Route_init_endpoint_check [where loader = "None :: nat option" and single = None
          and children = None and s = "[]" and e = "''sense''" and r = "''/senses''"
          and plural = None and single_type = "''int''"]
  by simp

lemma Route_init_singular:
  assumes live: "\<forall>c\<in>set (case children of None \<Rightarrow> [] | Some cs \<Rightarrow> cs). lookup s c \<noteq> None"
    and sing: "\<not> (e \<noteq> [] \<and> (last e = CHR ''s'' \<or> last e = CHR ''S''))"
  shows "\<exists>s2 obj. length s2 = Suc (length s) \<and> lookup s2 (length s) = Some obj \<and>
           route_loader obj = None \<and>
           Route_init e r plural single children single_type loader s =
             (let s3 = update_obj (length s) (\<lambda>obj. obj\<lparr>route_loader := loader\<rparr>) s2
              in case (case single of None \<Rightarrow> None | Some cls \<Rightarrow> restful_loader cls) of
                   None \<Rightarrow> (Inr (length s), s3)
                 | Some rl \<Rightarrow>
                     if loader \<noteq> None
                     then (Inl (ValueError
                             ''Please specify either `single.restful_loader` or `loader`''),
                           s3[length s := None])
                     else (Inr (length s),
                           update_obj (length s) (\<lambda>obj. obj\<lparr>route_loader := Some rl\<rparr>) s3))"
proof -
  define cs where "cs = (case children of None \<Rightarrow> [] | Some cs \<Rightarrow> cs)"
  define obj :: "'a route" where "obj = \<lparr>route_children = cs,
                               route_endpoint = e,
                               route_route = r,
                               route_single = single,
                               route_plural = plural,
                               route_single_type = single_type,
                               route_safe_endpoint = re_sub_non_alnum e,
                               route_parent = None,
                               route_loader = None\<rparr>"
  from live have "\<forall>c\<in>set cs. lookup s c \<noteq> None" by (simp add: cs_def)
  from Route_init_set_parents [OF this, of obj] obtain s2 where
    s2: "set_parents cs (length s) (s @ [Some obj]) = (Inr (), s2)"
        "length s2 = Suc (length s)" "lookup s2 (length s) = Some obj" by blast
  have ne: "\<not> endswith (lower e) ''s''"
    using sing by (simp add: endswith_lower_s)
  have "Route_init e r plural single children single_type loader s =
             (let s3 = update_obj (length s) (\<lambda>obj. obj\<lparr>route_loader := loader\<rparr>) s2
              in case (case single of None \<Rightarrow> None | Some cls \<Rightarrow> restful_loader cls) of
                   None \<Rightarrow> (Inr (length s), s3)
                 | Some rl \<Rightarrow>
                     if loader \<noteq> None
                     then (Inl (ValueError
                             ''Please specify either `single.restful_loader` or `loader`''),
                           s3[length s := None])
                     else (Inr (length s),
                           update_obj (length s) (\<lambda>obj. obj\<lparr>route_loader := Some rl\<rparr>) s3))"
    using ne s2(1)
    by (simp add: Route_init_def Let_def cs_def [symmetric] obj_def [symmetric])
  moreover have "route_loader obj = None" by (simp add: obj_def)
  ultimately show ?thesis using s2(2,3) by blast
qed

text \<open>
  Claim C7, as the code has it. With both an explicit loader and a single handler that
  has a \<open>restful_loader\<close>, construction raises a \<open>ValueError\<close> at once: for a singular
  endpoint its message is the fixed text
  \<^verbatim>\<open>Please specify either `single.restful_loader` or `loader`\<close>, which names neither the
  endpoint nor the route (for an endpoint ending in \<open>s\<close> the endpoint error comes first).
  With no \<open>restful_loader\<close> on the single handler the node's loader is the explicit
  argument (none when that is \<open>None\<close>); with a \<open>restful_loader\<close> and no explicit loader it
  is the handler's \<open>restful_loader\<close>.
\<close>

theorem Route_init_loader_sources:
  assumes "\<forall>c\<in>set (case children of None \<Rightarrow> [] | Some cs \<Rightarrow> cs). lookup s c \<noteq> None"
  shows
    "(loader \<noteq> None \<and> restful_loader cls \<noteq> None \<longrightarrow>
        fst (Route_init e r plural (Some cls) children single_type loader s) =
          Inl (ValueError
                (if e \<noteq> [] \<and> (last e = CHR ''s'' \<or> last e = CHR ''S'')
                 then ''Endpoints must be singular. Passed endpoint '' @ e @ '' with route '' @ r
                 else ''Please specify either `single.restful_loader` or `loader`''))) \<and>
     (\<not> (e \<noteq> [] \<and> (last e = CHR ''s'' \<or> last e = CHR ''S'')) \<and>
      (case single of None \<Rightarrow> True | Some c \<Rightarrow> restful_loader c = None) \<longrightarrow>
        fst (Route_init e r plural single children single_type loader s) = Inr (length s) \<and>
        map_option route_loader
          (lookup (snd (Route_init e r plural single children single_type loader s)) (length s)) =
          Some loader) \<and>
     (\<not> (e \<noteq> [] \<and> (last e = CHR ''s'' \<or> last e = CHR ''S'')) \<and> restful_loader cls \<noteq> None \<longrightarrow>
        fst (Route_init e r plural (Some cls) children single_type None s) = Inr (length s) \<and>
        map_option route_loader
          (lookup (snd (Route_init e r plural (Some cls) children single_type None s)) (length s)) =
          Some (restful_loader cls))"
proof (cases "e \<noteq> [] \<and> (last e = CHR ''s'' \<or> last e = CHR ''S'')")
  case True
  then have "endswith (lower e) ''s''" by (simp add: endswith_lower_s)
  then have "fst (Route_init e r plural (Some cls) children single_type loader s) =
          Inl (ValueError (''Endpoints must be singular. Passed endpoint '' @ e @ '' with route '' @ r))"
    by (simp add: Route_init_def)
  with True show ?thesis by simp
next
  case False
  note R = Route_init_singular [OF assms False]
  have both: "loader \<noteq> None \<and> restful_loader cls \<noteq> None \<longrightarrow>
        fst (Route_init e r plural (Some cls) children single_type loader s) =
          Inl (ValueError ''Please specify either `single.restful_loader` or `loader`'')"
    using R [of r plural "Some cls" single_type loader] by (auto simp: Let_def)
  have explicit: "(case single of None \<Rightarrow> True | Some c \<Rightarrow> restful_loader c = None) \<longrightarrow>
        fst (Route_init e r plural single children single_type loader s) = Inr (length s) \<and>
        map_option route_loader
          (lookup (snd (Route_init e r plural single children single_type loader s)) (length s)) =
          Some loader"
    using R [of r plural single single_type loader]
    by (auto simp: Let_def lookup_update_obj split: option.splits)
  have cap: "restful_loader cls \<noteq> None \<longrightarrow>
        fst (Route_init e r plural (Some cls) children single_type None s) = Inr (length s) \<and>
        map_option route_loader
          (lookup (snd (Route_init e r plural (Some cls) children single_type None s)) (length s)) =
          Some (restful_loader cls)"
  proof
    assume "restful_loader cls \<noteq> None"
    then obtain rl where rl: "restful_loader cls = Some rl" by auto
    from R [of r plural "Some cls" single_type None] obtain s2 obj where
      s2: "lookup s2 (length s) = Some obj"
      and eq: "Route_init e r plural (Some cls) children single_type None s =
                 (Inr (length s),
                  update_obj (length s) (\<lambda>obj. obj\<lparr>route_loader := Some rl\<rparr>)
                    (update_obj (length s) (\<lambda>obj. obj\<lparr>route_loader := None\<rparr>) s2))"
      using rl by (auto simp: Let_def)
    show "fst (Route_init e r plural (Some cls) children single_type None s) = Inr (length s) \<and>
        map_option route_loader
          (lookup (snd (Route_init e r plural (Some cls) children single_type None s)) (length s)) =
          Some (restful_loader cls)"
      unfolding eq rl using s2 by (simp add: lookup_update_obj)
  qed
  show ?thesis
    unfolding if_not_P [OF False] using False both explicit cap by blast
qed

theorem Route_init_loader_sources_witness:
  "fst (Route_init ''book'' ''/books'' None (Some (Resource ''Book'' (Some 1))) None ''int''
          (Some (2 :: nat)) []) =
     Inl (ValueError ''Please specify either `single.restful_loader` or `loader`'') \<and>
   fst (Route_init ''books'' ''/books'' None (Some (Resource ''Book'' (Some 1))) None ''int''
          (Some (2 :: nat)) []) =
     Inl (ValueError ''Endpoints must be singular. Passed endpoint books with route /books'') \<and>
   map_option route_loader
     (lookup (snd (Route_init ''book'' ''/books'' None (Some (Resource ''Book'' None)) None ''int''
                     (None :: nat option) [])) 0) = Some None \<and>
   map_option route_loader
     (lookup (snd (Route_init ''book'' ''/books'' None (Some (Resource ''Book'' None)) None ''int''
                     (Some (2 :: nat)) [])) 0) = Some (Some 2) \<and>
   map_option route_loader
     (lookup (snd (Route_init ''book'' ''/books'' None (Some (Resource ''Book'' (Some 1))) None ''int''
                     (None :: nat option) [])) 0) = Some (Some 1)"
  using Route_init_loader_sources [where children = None and s = "[]" and e = "''book''"
          and r = "''/books''" and plural = None and cls = "Resource ''Book'' (Some 1)"
          and single = "Some (Resource ''Book'' None)" and single_type = "''int''"
          and loader = "Some (2 :: nat)"]
        Route_init_loader_sources [where children = None and s = "[]" and e = "''books''"
          and r = "''/books''" and plural = None and cls = "Resource ''Book'' (Some 1)"
          and single = "Some (Resource ''Book'' None)" and single_type = "''int''"
          and loader = "Some (2 :: nat)"]
        Route_init_loader_sources [where children = None and s = "[]" and e = "''book''"
          and r = "''/books''" and plural = None and cls = "Resource ''Book'' (Some 1)"
          and single = "Some (Resource ''Book'' None)" and single_type = "''int''"
          and loader = "None :: nat option"]
  by simp

text \<open>
  Claim C7 as stated says that the message of the error names the offending endpoint and
  route fragment. For endpoint \<open>book\<close> and route \<open>/books\<close>, with both sources of a
  loader, neither is a contiguous part of the message of the error raised.
\<close>

theorem Route_init_duplicate_loader_message:
  "fst (Route_init ''book'' ''/books'' None (Some (Resource ''Book'' (Some 1))) None ''int''
          (Some (2 :: nat)) []) =
     Inl (ValueError ''Please specify either `single.restful_loader` or `loader`'') \<and>
   \<not> sublist ''book'' ''Please specify either `single.restful_loader` or `loader`'' \<and>
   \<not> sublist ''/books'' ''Please specify either `single.restful_loader` or `loader`''"
proof -
  define M where "M = ''Please specify either `single.restful_loader` or `loader`''"
  have res: "fst (Route_init ''book'' ''/books'' None (Some (Resource ''Book'' (Some 1))) None ''int''
          (Some (2 :: nat)) []) = Inl (ValueError M)"
    by (simp add: Route_init_def endswith_lower_s update_obj_def lookup_def M_def)
  have b: "CHR ''b'' \<notin> set M" and sl: "CHR ''/'' \<notin> set M"
    by (simp_all add: M_def)
  have no_endpoint: "\<not> sublist ''book'' M"
  proof
    assume "sublist ''book'' M"
    then have "set ''book'' \<subseteq> set M" by (rule set_mono_sublist)
    then have "CHR ''b'' \<in> set M" by simp
    with b show False by contradiction
  qed
  have no_route: "\<not> sublist ''/books'' M"
  proof
    assume "sublist ''/books'' M"
    then have "set ''/books'' \<subseteq> set M" by (rule set_mono_sublist)
    then have "CHR ''/'' \<in> set M" by simp
    with sl show False by contradiction
  qed
  from res no_endpoint no_route show ?thesis unfolding M_def by blast
qed

section \<open>The plural endpoint\<close>

text \<open>
  Claim C8, as the code has it. The plural endpoint of a node is its endpoint without
  its last character, followed by \<open>ies\<close>, when the endpoint ends in \<open>y\<close> or \<open>Y\<close>, and the
  endpoint followed by \<open>s\<close> otherwise: \<open>user\<close> gives \<open>users\<close>, \<open>category\<close> gives
  \<open>categories\<close>, and \<open>class\<close> would give \<open>classs\<close>.
\<close>

theorem plural_endpoint_of_rule:
  "plural_endpoint_of obj =
     (if route_endpoint obj \<noteq> [] \<and>
         (last (route_endpoint obj) = CHR ''y'' \<or> last (route_endpoint obj) = CHR ''Y'')
      then butlast (route_endpoint obj) @ ''ies''
      else route_endpoint obj @ ''s'') \<and>
   plural_endpoint_of (obj\<lparr>route_endpoint := ''user''\<rparr>) = ''users'' \<and>
   plural_endpoint_of (obj\<lparr>route_endpoint := ''category''\<rparr>) = ''categories'' \<and>
   plural_endpoint_of (obj\<lparr>route_endpoint := ''class''\<rparr>) = ''classs''"
  by (simp add: plural_endpoint_of_def endswith_lower_y)

text \<open>
  Claim C8 as stated replaces only a trailing \<open>y\<close> and appends \<open>s\<close> otherwise. The
  endpoint \<open>boY\<close> does not end in \<open>y\<close>, a \<open>Route\<close> with it can be constructed, and its
  plural endpoint is \<open>boies\<close>, not \<open>boYs\<close>.
\<close>

theorem plural_endpoint_of_capital_y:
  "\<not> endswith ''boY'' ''y'' \<and>
   fst (Route_init ''boY'' ''/boys'' None None None ''int'' (None :: nat option) []) = Inr 0 \<and>
   map_option plural_endpoint_of
     (lookup (snd (Route_init ''boY'' ''/boys'' None None None ''int'' (None :: nat option) [])) 0) =
     Some ''boies'' \<and>
   ''boies'' \<noteq> ''boY'' @ ''s''"
proof -
  have "\<not> endswith ''boY'' ''y''"
    by (simp add: endswith_def)
  moreover have
    "fst (Route_init ''boY'' ''/boys'' None None None ''int'' (None :: nat option) []) = Inr 0 \<and>
     map_option plural_endpoint_of
       (lookup (snd (Route_init ''boY'' ''/boys'' None None None ''int'' (None :: nat option) [])) 0) =
       Some ''boies''"
    by (simp add: Route_init_def endswith_lower_s update_obj_def lookup_def
          plural_endpoint_of_def endswith_lower_y)
  ultimately show ?thesis by simp
qed

section \<open>Theorems on registration\<close>

text \<open>
  Claim C2, as the code has it. For the tree root, node A (endpoint \<open>user\<close>, route
  \<open>/users\<close>, plural handler \<open>U\<close>, single handler \<open>u\<close>, loader \<open>L\<close>), child B (endpoint
  \<open>post\<close>, route \<open>/posts\<close>, plural handler \<open>P\<close>, single handler \<open>p\<close>, no loader), built
  by the constructors, registration makes exactly four registrations, in this order:
  \<open>U\<close> unwrapped at \<open>/users\<close> under \<open>users\<close>; \<open>u\<close> wrapped with \<open>L\<close> at
  \<open>/users/<int:user_id>\<close> under \<open>user\<close>; \<open>P\<close> wrapped with \<open>L\<close> at
  \<open>/users/<int:user_id>/posts\<close> under \<open>users-posts\<close>; \<open>p\<close> unwrapped at
  \<open>/users/<int:user_id>/posts/<int:post_id>\<close> under \<open>users-post\<close>. The children's endpoint
  prefix is the parent's plural endpoint name. The two wrapped classes are the next two
  class objects built, and the store is left as it was.
\<close>

theorem register_example_tree:
  "(case Route_init ''post'' ''/posts'' (Some P) (Some (Resource pn None)) None
           default_single_type None [] of
      (Inr b, s1) \<Rightarrow>
        (case Route_init ''user'' ''/users'' (Some U) (Some (Resource un None)) (Some [b])
                default_single_type (Some L) s1 of
           (Inr a, s2) \<Rightarrow>
             RootRoute_register_routes (Suc (Suc n)) add_resource_rec
               (RootRoute_init (Some [a])) [] (s2, k) =
             Some (Inr [(Plain U, ''/users'', ''users''),
                        (WrappedCls \<lparr>wrapped_id = k, wrapped_base = Resource un None,
                                     wrapped_loader = L, wrapped_name = ''user''\<rparr>,
                         ''/users/<int:user_id>'', ''user''),
                        (WrappedCls \<lparr>wrapped_id = Suc k, wrapped_base = P, wrapped_loader = L,
                                     wrapped_name = ''users-posts''\<rparr>,
                         ''/users/<int:user_id>/posts'', ''users-posts''),
                        (Plain (Resource pn None),
                         ''/users/<int:user_id>/posts/<int:post_id>'', ''users-post'')],
                   (s2, Suc (Suc k)))
         | (Inl e, s2) \<Rightarrow> False)
    | (Inl e, s1) \<Rightarrow> False)"
  by (simp add: eval_simps)

text \<open>
  Claim C2 as stated names the last two registrations \<open>user-posts\<close> and \<open>user-post\<close>.
  For the tree of the claim, built by two calls of the constructor (the handlers are
  classes without a \<open>restful_loader\<close>, the loader is \<open>5\<close>), the code registers them as
  \<open>users-posts\<close> and \<open>users-post\<close>: the result is not the sequence of the claim.
\<close>

theorem register_example_tree_names:
  "fst (Route_init ''post'' ''/posts'' (Some (Resource ''P'' None)) (Some (Resource ''p'' None))
          None default_single_type (None :: nat option) []) = Inr 0 \<and>
   fst (Route_init ''user'' ''/users'' (Some (Resource ''U'' None)) (Some (Resource ''u'' None))
          (Some [0]) default_single_type (Some 5) users_posts_store0) = Inr 1 \<and>
   RootRoute_register_routes 2 add_resource_rec (RootRoute_init (Some [1])) []
       (users_posts_store, 0) =
     Some (Inr [(Plain (Resource ''U'' None), ''/users'', ''users''),
                (WrappedCls \<lparr>wrapped_id = 0, wrapped_base = Resource ''u'' None,
                             wrapped_loader = 5, wrapped_name = ''user''\<rparr>,
                 ''/users/<int:user_id>'', ''user''),
                (WrappedCls \<lparr>wrapped_id = 1, wrapped_base = Resource ''P'' None,
                             wrapped_loader = 5, wrapped_name = ''users-posts''\<rparr>,
                 ''/users/<int:user_id>/posts'', ''users-posts''),
                (Plain (Resource ''p'' None),
                 ''/users/<int:user_id>/posts/<int:post_id>'', ''users-post'')],
           (users_posts_store, 2)) \<and>
   RootRoute_register_routes 2 add_resource_rec (RootRoute_init (Some [1])) []
       (users_posts_store, 0) \<noteq>
     Some (Inr [(Plain (Resource ''U'' None), ''/users'', ''users''),
                (WrappedCls \<lparr>wrapped_id = 0, wrapped_base = Resource ''u'' None,
                             wrapped_loader = 5, wrapped_name = ''user''\<rparr>,
                 ''/users/<int:user_id>'', ''user''),
                (WrappedCls \<lparr>wrapped_id = 1, wrapped_base = Resource ''P'' None,
                             wrapped_loader = 5, wrapped_name = ''user-posts''\<rparr>,
                 ''/users/<int:user_id>/posts'', ''user-posts''),
                (Plain (Resource ''p'' None),
                 ''/users/<int:user_id>/posts/<int:post_id>'', ''user-post'')],
           (users_posts_store, 2)) \<and>
   map (snd \<circ> snd)
     [(Plain (Resource ''U'' None), ''/users'', ''users''),
      (WrappedCls \<lparr>wrapped_id = 0, wrapped_base = Resource ''u'' None,
                   wrapped_loader = 5 :: nat, wrapped_name = ''user''\<rparr>,
       ''/users/<int:user_id>'', ''user''),
      (WrappedCls \<lparr>wrapped_id = 1, wrapped_base = Resource ''P'' None,
                   wrapped_loader = 5, wrapped_name = ''users-posts''\<rparr>,
       ''/users/<int:user_id>/posts'', ''users-posts''),
      (Plain (Resource ''p'' None),
       ''/users/<int:user_id>/posts/<int:post_id>'', ''users-post'')] \<noteq>
     [''users'', ''user'', ''user-posts'', ''user-post'']"
  by (simp add: eval_simps numeral_2_eq_2 users_posts_store_def users_posts_store0_def)

text \<open>
  Claim C3. On a store that constructors build, registering a live node with endpoint
  prefix \<open>E\<close> and path prefix \<open>P\<close> against the recording framework returns, and adds to
  the framework's sequence the node's own registrations followed, child by child in
  order, by what registering that child gives with endpoint prefix \<open>E\<close> + the node's plural
  endpoint + \<open>-\<close> and path prefix \<open>P\<close> + the node's route + \<open>/<idType:safeEndpoint_id>\<close>
  (each child starting from the classes built before it). A node with neither handler
  registers nothing of its own, builds no class, and passes the same prefixes on.
\<close>

theorem register_routes_children:
  assumes "wf_store s" and "lookup s a = Some obj" and "a < n"
  shows "register_routes n add_resource_rec a api E P (s, k) =
           Some (Inr (api @ own_registrations s obj E P k @
                      children_registrations s (route_children obj)
                        (E @ plural_endpoint_of obj @ ''-'')
                        (P @ route_route obj @ ''/<'' @ route_single_type obj @
                         '':'' @ route_safe_endpoint obj @ ''_id>'')
                        (k + own_classes s obj)),
                 (s, children_classes_after s (route_children obj)
                       (E @ plural_endpoint_of obj @ ''-'')
                       (P @ route_route obj @ ''/<'' @ route_single_type obj @
                        '':'' @ route_safe_endpoint obj @ ''_id>'')
                       (k + own_classes s obj))) \<and>
         (\<forall>c\<in>set (route_children obj). \<forall>j b E' P' k'. c < j \<longrightarrow>
             register_routes j add_resource_rec c b E' P' (s, k') =
               Some (Inr (b @ registrations s c E' P' k'), (s, classes_after s c E' P' k'))) \<and>
         (route_plural obj = None \<and> route_single obj = None \<longrightarrow>
            own_registrations s obj E P k = [] \<and> own_classes s obj = 0)"
proof -
  have child: "register_routes j add_resource_rec c b E' P' (s, k') =
                 Some (Inr (b @ registrations s c E' P' k'), (s, classes_after s c E' P' k'))"
    if c: "c \<in> set (route_children obj)" and j: "c < j" for c j b E' P' k'
  proof -
    from wf_storeD [OF assms(1,2)] c have "lookup s c \<noteq> None"
      by (auto simp: wf_obj_def list_all_iff)
    then obtain cobj where cobj: "lookup s c = Some cobj" by auto
    from register_routes_registrations [OF assms(1) cobj j] show ?thesis .
  qed
  have none: "own_registrations s obj E P k = [] \<and> own_classes s obj = 0"
    if "route_plural obj = None" "route_single obj = None"
    using that
    by (simp add: own_registrations_def own_classes_def plural_classes_def single_classes_def)
  note R = register_routes_rec [OF assms, of api E P k]
  have "register_routes n add_resource_rec a api E P (s, k) =
           Some (Inr (api @ own_registrations s obj E P k @
                      children_registrations s (route_children obj)
                        (E @ plural_endpoint_of obj @ ''-'')
                        (P @ route_route obj @ ''/<'' @ route_single_type obj @
                         '':'' @ route_safe_endpoint obj @ ''_id>'')
                        (k + own_classes s obj)),
                 (s, children_classes_after s (route_children obj)
                       (E @ plural_endpoint_of obj @ ''-'')
                       (P @ route_route obj @ ''/<'' @ route_single_type obj @
                        '':'' @ route_safe_endpoint obj @ ''_id>'')
                       (k + own_classes s obj)))"
    using R by simp
  with child none show ?thesis by blast
qed

theorem register_routes_children_witness:
  "wf_store example_store \<and>
   register_routes 3 add_resource_rec 2 [] [] [] (example_store, 0) =
     Some (Inr
       [(WrappedCls \<lparr>wrapped_id = 0, wrapped_base = Resource ''Users'' None, wrapped_loader = 9,
                     wrapped_name = ''orgs-users''\<rparr>,
         ''/orgs/<int:org_id>/users'', ''orgs-users''),
        (Plain (Resource ''User'' None),
         ''/orgs/<int:org_id>/users/<int:user_id>'', ''orgs-user''),
        (Plain (Resource ''Posts'' None),
         ''/orgs/<int:org_id>/users/<int:user_id>/posts'', ''orgs-users-posts''),
        (WrappedCls \<lparr>wrapped_id = 1, wrapped_base = Resource ''Post'' None, wrapped_loader = 7,
                     wrapped_name = ''orgs-users-post''\<rparr>,
         ''/orgs/<int:org_id>/users/<int:user_id>/posts/<int:post_id>'', ''orgs-users-post'')],
       (example_store, 2))"
proof -
  have "(2 :: nat) < 3" by simp
  from register_routes_children [OF wf_example_store lookup_example_store(3) this,
         of "[]" "[]" "[]" 0]
  have "register_routes 3 add_resource_rec 2 [] [] [] (example_store, 0) =
          Some (Inr (registrations example_store (Suc 0) ''orgs-'' ''/orgs/<int:org_id>'' 0),
                (example_store,
                 classes_after example_store (Suc 0) ''orgs-'' ''/orgs/<int:org_id>'' 0))"
    by (simp add: own_registrations_def own_classes_def plural_classes_def single_classes_def
          plural_endpoint_of_def endswith_lower_y)
  then show ?thesis
    by (simp add: wf_example_store registrations_example_user numeral_2_eq_2)
qed

text \<open>
  Claim C4. On a store that constructors build, the first registration of a live node
  with a plural handler \<open>cls\<close> is that of the plural handler, at the node's base path under
  its plural endpoint name. The class registered is \<open>cls\<close> itself when the node has no
  parent, and when its parent has no loader; it is \<open>cls\<close> wrapped with the parent's loader,
  in the class object built next, when the parent has one. Only the immediate parent's
  loader is read: neither the node's own loader nor that of any further ancestor changes
  the class.
\<close>

theorem register_routes_plural_handler:
  assumes "wf_store s" and "lookup s a = Some obj" and "route_plural obj = Some cls" and "a < n"
  shows "\<exists>h rest k'.
           register_routes n add_resource_rec a api E P (s, k) =
             Some (Inr (api @ (h, P @ route_route obj, E @ plural_endpoint_of obj) # rest),
                   (s, k')) \<and>
           (route_parent obj = None \<longrightarrow> h = Plain cls) \<and>
           (\<forall>p parent. route_parent obj = Some p \<and> lookup s p = Some parent \<longrightarrow>
              h = (case route_loader parent of
                     None \<Rightarrow> Plain cls
                   | Some l \<Rightarrow> WrappedCls \<lparr>wrapped_id = k, wrapped_base = cls,
                                            wrapped_loader = l,
                                            wrapped_name = E @ plural_endpoint_of obj\<rparr>))"
proof -
  let ?h = "effective_handler cls (parent_loader s obj) (E @ plural_endpoint_of obj) k"
  from assms(3) obtain tl where own: "own_registrations s obj E P k =
      (?h, P @ route_route obj, E @ plural_endpoint_of obj) # tl"
    by (simp add: own_registrations_def)
  note R = register_routes_rec [OF assms(1,2,4), of api E P k]
  have "register_routes n add_resource_rec a api E P (s, k) =
          Some (Inr (api @ (?h, P @ route_route obj, E @ plural_endpoint_of obj) #
                 (tl @ children_registrations s (route_children obj)
                        (E @ plural_endpoint_of obj @ ''-'')
                        (P @ route_route obj @ ''/<'' @ route_single_type obj @
                         '':'' @ route_safe_endpoint obj @ ''_id>'')
                        (k + own_classes s obj))),
                (s, classes_after s a E P k))"
    using R own by simp
  moreover have "route_parent obj = None \<longrightarrow> ?h = Plain cls"
    by (simp add: effective_handler_def parent_loader_def)
  moreover have "\<forall>p parent. route_parent obj = Some p \<and> lookup s p = Some parent \<longrightarrow>
              ?h = (case route_loader parent of
                     None \<Rightarrow> Plain cls
                   | Some l \<Rightarrow> WrappedCls \<lparr>wrapped_id = k, wrapped_base = cls,
                                            wrapped_loader = l,
                                            wrapped_name = E @ plural_endpoint_of obj\<rparr>)"
    by (auto simp: effective_handler_def parent_loader_def split: option.splits)
  ultimately show ?thesis
    by - (rule exI, rule exI, rule exI, intro conjI, assumption+)
qed

theorem register_routes_plural_handler_witness:
  "wf_store example_store \<and>
   parent_loader example_store (the (lookup example_store 0)) = None \<and>
   route_loader (the (lookup example_store 0)) = Some 7 \<and>
   route_loader (the (lookup example_store 2)) = Some 9 \<and>
   register_routes 1 add_resource_rec 0 [] ''orgs-users-''
       ''/orgs/<int:org_id>/users/<int:user_id>'' (example_store, 0) =
     Some (Inr
       [(Plain (Resource ''Posts'' None),
         ''/orgs/<int:org_id>/users/<int:user_id>/posts'', ''orgs-users-posts''),
        (WrappedCls \<lparr>wrapped_id = 0, wrapped_base = Resource ''Post'' None, wrapped_loader = 7,
                     wrapped_name = ''orgs-users-post''\<rparr>,
         ''/orgs/<int:org_id>/users/<int:user_id>/posts/<int:post_id>'', ''orgs-users-post'')],
       (example_store, 1)) \<and>
   parent_loader example_store (the (lookup example_store 1)) = Some 9 \<and>
   take 1 (registrations example_store 1 ''orgs-'' ''/orgs/<int:org_id>'' 0) =
       [(WrappedCls \<lparr>wrapped_id = 0, wrapped_base = Resource ''Users'' None, wrapped_loader = 9,
                     wrapped_name = ''orgs-users''\<rparr>,
         ''/orgs/<int:org_id>/users'', ''orgs-users'')]"
proof -
  have "(0 :: nat) < 1" by simp
  from register_routes_plural_handler [OF wf_example_store lookup_example_store(1) _ this,
         of "Resource ''Posts'' None" "[]" "''orgs-users-''"
            "''/orgs/<int:org_id>/users/<int:user_id>''" 0]
  obtain h rest k' where
    run: "register_routes 1 add_resource_rec 0 [] ''orgs-users-''
            ''/orgs/<int:org_id>/users/<int:user_id>'' (example_store, 0) =
          Some (Inr ((h, ''/orgs/<int:org_id>/users/<int:user_id>/posts'', ''orgs-users-posts'') # rest),
                (example_store, k'))"
    and h: "h = Plain (Resource ''Posts'' None)"
    using lookup_example_store(2)
    by (auto simp: plural_endpoint_of_def endswith_lower_y)
  have ev: "register_routes 1 add_resource_rec 0 [] ''orgs-users-''
       ''/orgs/<int:org_id>/users/<int:user_id>'' (example_store, 0) =
     Some (Inr
       [(Plain (Resource ''Posts'' None),
         ''/orgs/<int:org_id>/users/<int:user_id>/posts'', ''orgs-users-posts''),
        (WrappedCls \<lparr>wrapped_id = 0, wrapped_base = Resource ''Post'' None, wrapped_loader = 7,
                     wrapped_name = ''orgs-users-post''\<rparr>,
         ''/orgs/<int:org_id>/users/<int:user_id>/posts/<int:post_id>'', ''orgs-users-post'')],
       (example_store, 1))"
    by (simp add: lookup_example_store plural_endpoint_of_def endswith_lower_y
          wrapped_cls_def add_resource_rec_def Let_def)
  from run h ev have "rest =
        [(WrappedCls \<lparr>wrapped_id = 0, wrapped_base = Resource ''Post'' None, wrapped_loader = 7,
                     wrapped_name = ''orgs-users-post''\<rparr>,
         ''/orgs/<int:org_id>/users/<int:user_id>/posts/<int:post_id>'', ''orgs-users-post'')] \<and>
        k' = 1"
    by simp
  with run h show ?thesis
    by (simp add: wf_example_store registrations_example_user lookup_example_store
          parent_loader_def)
qed




end
